theory Spec2Isabelle
  imports Main
begin

section \<open>Errors, panics and outcomes\<close>

text \<open>
  The Go functions return \<open>(value, error)\<close> pairs and can panic. An outcome is the
  returned value, the returned error, or the panic that unwinds the goroutine.
  \<open>Errorf f\<close> stands for the value of \<open>fmt.Errorf(f)\<close> called with the format
  string \<open>f\<close> and no operands (for a format without a percent sign its message is \<open>f\<close>
  itself); \<open>ErrorsNew m\<close> for \<open>errors.New(m)\<close>; \<open>NetError\<close> for any error of the
  socket (timeout, reset, end of stream, use of a closed connection).
\<close>

datatype error =
    Canceled
  | DeadlineExceeded
  | NetError
  | ErrorsNew string
  | Errorf string

datatype panic =
    MakesliceLenOutOfRange
  | SliceBoundsOutOfRange
  | IndexOutOfRange
  | MakechanSizeOutOfRange
  | SendOnClosedChannel

datatype 'a outcome = Return 'a | Fail error | Panic panic

section \<open>Bytes and strings\<close>

abbreviation CR :: char where "CR \<equiv> CHR 0x0D"
abbreviation LF :: char where "LF \<equiv> CHR 0x0A"
abbreviation NUL :: char where "NUL \<equiv> CHR 0x00"
abbreviation CRLF :: string where "CRLF \<equiv> [CR, LF]"

text \<open>\<open>strings.TrimSuffix\<close>: the string without the suffix when it ends with it.\<close>

definition TrimSuffix :: "string \<Rightarrow> string \<Rightarrow> string" where
  "TrimSuffix s suffix =
     (if length suffix \<le> length s \<and> drop (length s - length suffix) s = suffix
      then take (length s - length suffix) s else s)"

text \<open>Decimal digits, as \<open>strconv\<close> reads them and \<open>%d\<close> prints them.\<close>

definition isDigit :: "char \<Rightarrow> bool" where
  "isDigit c = (48 \<le> (of_char c :: nat) \<and> (of_char c :: nat) \<le> 57)"

definition digitVal :: "char \<Rightarrow> int" where
  "digitVal c = int (of_char c) - 48"

definition digitsVal :: "string \<Rightarrow> int" where
  "digitsVal s = foldl (\<lambda>n c. n * 10 + digitVal c) 0 s"

datatype numError = ErrSyntax | ErrRange

text \<open>
  \<open>strconv.Atoi\<close> on a 64-bit platform: an optional sign and decimal digits. A syntax
  error gives 0, a value out of the range of \<open>int\<close> gives the nearest bound; both come
  with an error.
\<close>

definition Atoi :: "string \<Rightarrow> int \<times> numError option" where
  "Atoi s =
     (let neg = (s \<noteq> [] \<and> hd s = CHR ''-'');
          body = (if s \<noteq> [] \<and> (hd s = CHR ''-'' \<or> hd s = CHR ''+'') then tl s else s)
      in if body = [] \<or> \<not> list_all isDigit body then (0, Some ErrSyntax)
         else let un = digitsVal body
              in if \<not> neg \<and> un \<ge> 2 ^ 63 then (2 ^ 63 - 1, Some ErrRange)
                 else if neg \<and> un > 2 ^ 63 then (- (2 ^ 63), Some ErrRange)
                 else (if neg then - un else un, None))"

text \<open>Addition of two \<open>int\<close> values of Go: 64 bits, two's complement, wrapping.\<close>

definition wrap64 :: "int \<Rightarrow> int" where
  "wrap64 x = (x + 2 ^ 63) mod 2 ^ 64 - 2 ^ 63"




section \<open>Contexts and time\<close>

text \<open>
  A \<open>context.Context\<close> is its cancellation flag and its optional deadline; time is a
  number of nanoseconds. \<open>ctx.Err()\<close> read at time \<open>now\<close> is \<open>Canceled\<close> for a cancelled
  context and \<open>DeadlineExceeded\<close> once the deadline has passed. The clock is read once
  per modelled call: no time elapses inside a call.
\<close>

record Context =
  cancelled :: bool
  deadline :: "nat option"

definition ctx_Err :: "Context \<Rightarrow> nat \<Rightarrow> error option" where
  "ctx_Err ctx now =
     (if cancelled ctx then Some Canceled
      else case deadline ctx of
             None \<Rightarrow> None
           | Some d \<Rightarrow> if d \<le> now then Some DeadlineExceeded else None)"

definition Second :: nat where
  "Second = 1000000000"

section \<open>Connection\<close>

text \<open>
  A \<open>Connection\<close> is the socket \<open>conn\<close> with its buffered reader and writer \<open>rw\<close>.
  The socket is what the peer observes and delivers: the bytes written so far, the two
  deadlines last set, whether it has been closed, whether its writes fail, and the
  segments still to arrive, each segment being what one \<open>Read\<close> of the socket can
  return at most. The reader of \<open>rw\<close> is the bytes it has buffered and not yet handed
  out; its buffer has the default size of \<open>bufio.NewReader\<close>.
\<close>

record Connection =
  closed :: bool
  writeFails :: bool
  sent :: string
  writeDeadline :: "nat option"
  readDeadline :: "nat option"
  buffered :: string
  incoming :: "string list"

definition defaultBufSize :: nat where
  "defaultBufSize = 4096"

text \<open>
  One \<open>Read\<close> of the socket into a slice of \<open>k\<close> bytes: the head of the next segment.
  With nothing left to arrive the read ends in an error (the deadline passes or the peer
  has closed). Empty segments carry nothing and are skipped.
\<close>

definition connRead :: "nat \<Rightarrow> Connection \<Rightarrow> string option \<times> Connection" where
  "connRead k rc =
     (if closed rc then (None, rc)
      else case dropWhile (\<lambda>seg. seg = []) (incoming rc) of
             [] \<Rightarrow> (None, rc\<lparr>incoming := []\<rparr>)
           | seg # rest \<Rightarrow>
               (Some (take k seg),
                rc\<lparr>incoming := (if length seg \<le> k then rest else drop k seg # rest)\<rparr>))"

definition SetWriteDeadline :: "nat \<Rightarrow> Connection \<Rightarrow> error option \<times> Connection" where
  "SetWriteDeadline d rc =
     (if closed rc then (Some NetError, rc) else (None, rc\<lparr>writeDeadline := Some d\<rparr>))"

definition SetReadDeadline :: "nat \<Rightarrow> Connection \<Rightarrow> error option \<times> Connection" where
  "SetReadDeadline d rc =
     (if closed rc then (Some NetError, rc) else (None, rc\<lparr>readDeadline := Some d\<rparr>))"

text \<open>\<open>rw.WriteString(s)\<close> followed by \<open>rw.Flush()\<close>: the bytes reach the socket or the
  write fails.\<close>

definition WriteFlush :: "string \<Rightarrow> Connection \<Rightarrow> error option \<times> Connection" where
  "WriteFlush s rc =
     (if closed rc \<or> writeFails rc then (Some NetError, rc)
      else (None, rc\<lparr>sent := sent rc @ s\<rparr>))"

text \<open>\<open>conn.Close()\<close>: closing twice is an error.\<close>

definition Close :: "Connection \<Rightarrow> error option \<times> Connection" where
  "Close rc = (if closed rc then (Some NetError, rc) else (None, rc\<lparr>closed := True\<rparr>))"

subsection \<open>The buffered reader\<close>

text \<open>
  \<open>rw.ReadString('\n')\<close>: search the buffered bytes for the delimiter; while it is
  missing, set a full buffer aside and refill from the socket with one read of at most
  the free space. The result is every byte up to and including the delimiter; bytes
  read beyond it stay buffered. An error of the socket ends the call.
\<close>

definition pendingSize :: "Connection \<Rightarrow> nat" where
  "pendingSize rc = sum_list (map length (incoming rc)) + length (incoming rc)"

definition splitLine :: "string \<Rightarrow> string \<times> string" where
  "splitLine buf = (takeWhile (\<lambda>c. c \<noteq> LF) buf @ [LF], tl (dropWhile (\<lambda>c. c \<noteq> LF) buf))"

function ReadStringLoop :: "string \<Rightarrow> Connection \<Rightarrow> string outcome \<times> Connection" where
  "ReadStringLoop acc rc =
     (if LF \<in> set (buffered rc)
      then (Return (acc @ fst (splitLine (buffered rc))),
            rc\<lparr>buffered := snd (splitLine (buffered rc))\<rparr>)
      else if defaultBufSize \<le> length (buffered rc)
      then ReadStringLoop (acc @ buffered rc) (rc\<lparr>buffered := []\<rparr>)
      else case connRead (defaultBufSize - length (buffered rc)) rc of
             (None, rc') \<Rightarrow> (Fail NetError, rc'\<lparr>buffered := []\<rparr>)
           | (Some data, rc') \<Rightarrow>
               ReadStringLoop acc (rc'\<lparr>buffered := buffered rc @ data\<rparr>))"
  by pat_completeness auto

termination ReadStringLoop
proof (relation "measures [\<lambda>(acc, rc). pendingSize rc, \<lambda>(acc, rc). length (buffered rc)]",
    goal_cases)
  case 1
  show ?case by simp
next
  case (2 acc rc)
  then show ?case by (auto simp: pendingSize_def defaultBufSize_def)
next
  case (3 acc rc x rc' data)
  have skip: "sum_list (map length (dropWhile P xs)) + length (dropWhile P xs)
      \<le> sum_list (map length xs) + length xs" for P and xs :: "string list"
    by (induction xs) auto
  from 3 have k: "0 < defaultBufSize - length (buffered rc)" by simp
  from 3 obtain seg rest where
    dw: "dropWhile (\<lambda>seg. seg = []) (incoming rc) = seg # rest"
    and rc': "rc' = rc\<lparr>incoming := (if length seg \<le> defaultBufSize - length (buffered rc)
                                    then rest
                                    else drop (defaultBufSize - length (buffered rc)) seg # rest)\<rparr>"
    by (auto simp: connRead_def split: if_splits list.splits)
  have "seg \<noteq> []"
    using dw by (metis (mono_tags, lifting) hd_dropWhile list.sel(1) list.distinct(1))
  have "sum_list (map length (seg # rest)) + length (seg # rest) \<le> pendingSize rc"
    unfolding pendingSize_def using skip [of "\<lambda>seg. seg = []" "incoming rc"] dw by simp
  moreover have "pendingSize rc' < sum_list (map length (seg # rest)) + length (seg # rest)"
    using \<open>seg \<noteq> []\<close> k by (auto simp: rc' pendingSize_def)
  ultimately have "pendingSize rc' < pendingSize rc" by simp
  then show ?case by (simp add: pendingSize_def)
qed

declare ReadStringLoop.simps [simp del]

definition ReadString :: "Connection \<Rightarrow> string outcome \<times> Connection" where
  "ReadString rc = ReadStringLoop [] rc"

text \<open>
  \<open>rw.Read(p)\<close> with \<open>len(p) = k\<close>: the bytes come from the buffer, or, when the buffer
  is empty, from at most one read of the socket (straight into \<open>p\<close> when \<open>p\<close> is at
  least as large as the buffer). It returns the bytes copied, which may be fewer than
  \<open>k\<close>. A slice of length 0 reads nothing.
\<close>

definition Read :: "nat \<Rightarrow> Connection \<Rightarrow> string outcome \<times> Connection" where
  "Read k rc =
     (if k = 0 then (Return [], rc)
      else if buffered rc = [] then
        (if defaultBufSize \<le> k then
           (case connRead k rc of
              (None, rc') \<Rightarrow> (Fail NetError, rc')
            | (Some data, rc') \<Rightarrow> (Return data, rc'))
         else
           (case connRead defaultBufSize rc of
              (None, rc') \<Rightarrow> (Fail NetError, rc')
            | (Some data, rc') \<Rightarrow> (Return (take k data), rc'\<lparr>buffered := drop k data\<rparr>)))
      else (Return (take k (buffered rc)), rc\<lparr>buffered := drop k (buffered rc)\<rparr>))"

subsection \<open>Send and Receive\<close>

text \<open>The deadline put on the socket: the context's, or five seconds from now.\<close>

definition ioDeadline :: "Context \<Rightarrow> nat \<Rightarrow> nat" where
  "ioDeadline ctx now = (case deadline ctx of Some d \<Rightarrow> d | None \<Rightarrow> now + 5 * Second)"

definition Send :: "nat \<Rightarrow> Context \<Rightarrow> string \<Rightarrow> Connection \<Rightarrow> error option \<times> Connection" where
  "Send now ctx command rc =
     (case ctx_Err ctx now of
        Some err \<Rightarrow> (Some err, rc)
      | None \<Rightarrow>
          (case SetWriteDeadline (ioDeadline ctx now) rc of
             (Some err, rc') \<Rightarrow> (Some err, rc')
           | (None, rc') \<Rightarrow> WriteFlush (command @ CRLF) rc'))"

text \<open>
  The largest allocation the runtime accepts on a 64-bit platform; \<open>make\<close> panics on a
  negative length and on a length beyond it.
\<close>

definition maxAlloc :: int where
  "maxAlloc = 2 ^ 48"

text \<open>
  The bulk-string branch of \<open>Receive\<close>, after the header line: \<open>length\<close> is what
  \<open>Atoi\<close> gave, its error dropped. \<open>buf\<close> is zero-filled, one \<open>Read\<close> copies into its
  front, and \<open>buf[:length]\<close> is returned.
\<close>

definition receiveBulk :: "int \<Rightarrow> Connection \<Rightarrow> string outcome \<times> Connection" where
  "receiveBulk len rc =
     (if len = - 1 then (Return [], rc)
      else if wrap64 (len + 2) < 0 \<or> maxAlloc < wrap64 (len + 2)
      then (Panic MakesliceLenOutOfRange, rc)
      else
        (case Read (nat (wrap64 (len + 2))) rc of
           (Fail err, rc') \<Rightarrow> (Fail err, rc')
         | (Panic p, rc') \<Rightarrow> (Panic p, rc')
         | (Return got, rc') \<Rightarrow>
             (if len < 0 \<or> wrap64 (len + 2) < len then (Panic SliceBoundsOutOfRange, rc')
              else (Return (take (nat len)
                              (got @ replicate (nat (wrap64 (len + 2)) - length got) NUL)),
                    rc'))))"

text \<open>The \<open>switch line[0]\<close> of \<open>Receive\<close>, on the line read and the connection after it.\<close>

definition replySwitch :: "string \<Rightarrow> Connection \<Rightarrow> string outcome \<times> Connection" where
  "replySwitch line rc =
     (case line of
        [] \<Rightarrow> (Panic IndexOutOfRange, rc)
      | c # rest \<Rightarrow>
          if c = CHR ''-'' then (Fail (Errorf (TrimSuffix rest CRLF)), rc)
          else if c = CHR ''$'' then receiveBulk (fst (Atoi (TrimSuffix rest CRLF))) rc
          else if c = CHR ''+'' then (Return (TrimSuffix rest CRLF), rc)
          else (Return (TrimSuffix line CRLF), rc))"

definition Receive :: "nat \<Rightarrow> Context \<Rightarrow> Connection \<Rightarrow> string outcome \<times> Connection" where
  "Receive now ctx rc =
     (case ctx_Err ctx now of
        Some err \<Rightarrow> (Fail err, rc)
      | None \<Rightarrow>
          (case SetReadDeadline (ioDeadline ctx now) rc of
             (Some err, rc') \<Rightarrow> (Fail err, rc')
           | (None, rc') \<Rightarrow>
               (case ReadString rc' of
                  (Fail err, rc'') \<Rightarrow> (Fail err, rc'')
                | (Panic p, rc'') \<Rightarrow> (Panic p, rc'')
                | (Return line, rc'') \<Rightarrow> replySwitch line rc'')))"

text \<open>The bytes a connection has still to hand out: buffered, then in flight.\<close>

definition stream :: "Connection \<Rightarrow> string" where
  "stream rc = buffered rc @ concat (incoming rc)"

text \<open>A context that is neither cancelled nor bounded by a deadline.\<close>

definition Background :: Context where
  "Background = \<lparr>cancelled = False, deadline = None\<rparr>"

text \<open>A socket as \<open>Dial\<close> returns it, on which the peer will deliver the given segments.\<close>

definition dialed :: "string list \<Rightarrow> Connection" where
  "dialed segs =
     \<lparr>closed = False, writeFails = False, sent = [], writeDeadline = None,
      readDeadline = None, buffered = [], incoming = segs\<rparr>"

section \<open>Connection construction\<close>

text \<open>
  \<open>Auth\<close>: the command is the text \<open>AUTH\<close>, a space and the password, handed to \<open>Send\<close>,
  which appends the line end; the reply must be \<open>OK\<close>.
\<close>

definition Auth :: "nat \<Rightarrow> Context \<Rightarrow> string \<Rightarrow> Connection \<Rightarrow> unit outcome \<times> Connection" where
  "Auth now ctx password rc =
     (case ctx_Err ctx now of
        Some err \<Rightarrow> (Fail err, rc)
      | None \<Rightarrow>
          (case Send now ctx (''AUTH '' @ password) rc of
             (Some err, rc') \<Rightarrow> (Fail err, rc')
           | (None, rc') \<Rightarrow>
               (case Receive now ctx rc' of
                  (Fail err, rc'') \<Rightarrow> (Fail err, rc'')
                | (Panic p, rc'') \<Rightarrow> (Panic p, rc'')
                | (Return reply, rc'') \<Rightarrow>
                    if reply \<noteq> ''OK'' then (Fail (ErrorsNew ''authentication failed''), rc'')
                    else (Return (), rc''))))"

text \<open>
  \<open>NewRedisConnection\<close>, given what \<open>dialer.Dial\<close> returns: the error of the dial, or
  the socket. Its context is a five-second timeout from now. With a non-empty \<open>auth\<close>
  the connection authenticates; when that fails the socket is closed and dropped.
\<close>

definition NewRedisConnection :: "nat \<Rightarrow> error + Connection \<Rightarrow> string \<Rightarrow> Connection outcome" where
  "NewRedisConnection now dial auth =
     (case dial of
        Inl err \<Rightarrow> Fail err
      | Inr conn \<Rightarrow>
          if auth \<noteq> [] then
            (case Auth now \<lparr>cancelled = False, deadline = Some (now + 5 * Second)\<rparr> auth conn of
               (Fail err, rc) \<Rightarrow> Fail err
             | (Panic p, rc) \<Rightarrow> Panic p
             | (Return u, rc) \<Rightarrow> Return rc)
          else Return conn)"

section \<open>Client and pool\<close>

text \<open>
  The client: the pool is the buffered channel, a queue of idle connections of capacity
  \<open>poolSize\<close>. The dialer is the network as the client meets it: what the \<open>n\<close>-th dial
  to an address returns; \<open>dials\<close> counts the dials made so far. A client that has been
  closed is outside the model.
\<close>

record Client =
  pool :: "Connection list"
  address :: string
  poolSize :: int
  auth :: string
  dialer :: "string \<Rightarrow> nat \<Rightarrow> error + Connection"
  dials :: nat

text \<open>One round of the pre-population loop: a failed connection is logged and skipped.\<close>

definition populateStep ::
  "nat \<Rightarrow> (string \<Rightarrow> nat \<Rightarrow> error + Connection) \<Rightarrow> string \<Rightarrow> string \<Rightarrow> nat
     \<Rightarrow> Connection list outcome \<Rightarrow> Connection list outcome" where
  "populateStep now net addr au i st =
     (case st of
        Return conns \<Rightarrow>
          (case NewRedisConnection now (net addr i) au of
             Return conn \<Rightarrow> Return (conns @ [conn])
           | Fail err \<Rightarrow> Return conns
           | Panic p \<Rightarrow> Panic p)
      | Fail err \<Rightarrow> Fail err
      | Panic p \<Rightarrow> Panic p)"

text \<open>
  \<open>NewRedisClient\<close>: \<open>make\<close> panics on a negative capacity (a capacity beyond what the
  allocator accepts is outside the model); the loop runs \<open>poolSize\<close> times.
\<close>

definition NewRedisClient ::
  "nat \<Rightarrow> (string \<Rightarrow> nat \<Rightarrow> error + Connection) \<Rightarrow> string \<Rightarrow> int \<Rightarrow> string \<Rightarrow> Client outcome" where
  "NewRedisClient now net addr capacity au =
     (if capacity < 0 then Panic MakechanSizeOutOfRange
      else case fold (populateStep now net addr au) [0..<nat capacity] (Return []) of
             Panic p \<Rightarrow> Panic p
           | Fail err \<Rightarrow> Fail err
           | Return conns \<Rightarrow>
               if length conns = 0 then Fail (ErrorsNew ''can't create redis connection'')
               else Return \<lparr>pool = conns, address = addr, poolSize = capacity, auth = au,
                            dialer = net, dials = nat capacity\<rparr>)"

definition GetConnection :: "nat \<Rightarrow> Client \<Rightarrow> Connection outcome \<times> Client" where
  "GetConnection now client =
     (case pool client of
        conn # rest \<Rightarrow> (Return conn, client\<lparr>pool := rest\<rparr>)
      | [] \<Rightarrow>
          (NewRedisConnection now (dialer client (address client) (dials client)) (auth client),
           client\<lparr>dials := dials client + 1\<rparr>))"

text \<open>\<open>ReleaseConnection\<close>: the client afterwards, and the connection as it is left.\<close>

definition ReleaseConnection :: "Connection \<Rightarrow> Client \<Rightarrow> Client \<times> Connection" where
  "ReleaseConnection conn client =
     (if poolSize client \<le> int (length (pool client))
      then (client, snd (Close conn))
      else (client\<lparr>pool := pool client @ [conn]\<rparr>, conn))"





text \<open>A sequence of pool operations, as the mutex serialises them.\<close>

datatype poolOp = Acquire nat | Release Connection

fun runPool :: "Client \<Rightarrow> poolOp list \<Rightarrow> Client" where
  "runPool client [] = client"
| "runPool client (Acquire now # ops) = runPool (snd (GetConnection now client)) ops"
| "runPool client (Release conn # ops) = runPool (fst (ReleaseConnection conn client)) ops"


text \<open>What an attempt to connect contributes to the pool.\<close>

definition connectionOf :: "Connection outcome \<Rightarrow> Connection option" where
  "connectionOf r = (case r of Return conn \<Rightarrow> Some conn | Fail err \<Rightarrow> None | Panic p \<Rightarrow> None)"

text \<open>The connections that the first \<open>n\<close> attempts of the constructor establish, in order.\<close>

definition established ::
  "nat \<Rightarrow> (string \<Rightarrow> nat \<Rightarrow> error + Connection) \<Rightarrow> string \<Rightarrow> string \<Rightarrow> nat \<Rightarrow> Connection list" where
  "established now net addr au n =
     List.map_filter (\<lambda>i. connectionOf (NewRedisConnection now (net addr i) au)) [0..<n]"


definition alwaysUp :: "string \<Rightarrow> nat \<Rightarrow> error + Connection" where
  "alwaysUp addr n = Inr (dialed [])"

definition secondOnly :: "string \<Rightarrow> nat \<Rightarrow> error + Connection" where
  "secondOnly addr n = (if n = 1 then Inr (dialed []) else Inl NetError)"

definition alwaysDown :: "string \<Rightarrow> nat \<Rightarrow> error + Connection" where
  "alwaysDown addr n = Inl NetError"

section \<open>The HTTP cache layer\<close>

text \<open>
  An \<open>http.Header\<close> is a map from keys to lists of values; here it is an association list
  with one entry per key, and a \<open>range\<close> over it goes in the order of the list (Go leaves
  the order open). \<open>Header.Add\<close> appends a value under the canonical form of the key.
\<close>

type_synonym Header = "(string \<times> string list) list"

fun appendValue :: "string \<Rightarrow> string \<Rightarrow> Header \<Rightarrow> Header" where
  "appendValue k v [] = [(k, [v])]"
| "appendValue k v ((k', vs) # h) =
     (if k' = k then (k', vs @ [v]) # h else (k', vs) # appendValue k v h)"

record CachedResponse =
  StatusCode :: int
  Headers :: Header
  Body :: string

text \<open>
  The \<open>http.ResponseWriter\<close> handed to the plugin: its header map and the calls of
  \<open>WriteHeader\<close> and \<open>Write\<close> it has received, in order.
\<close>

datatype writerCall = WriteHeaderCall int | WriteCall string

record ResponseWriter =
  header :: Header
  calls :: "writerCall list"

definition rwWriteHeader :: "int \<Rightarrow> ResponseWriter \<Rightarrow> ResponseWriter" where
  "rwWriteHeader statusCode w = w\<lparr>calls := calls w @ [WriteHeaderCall statusCode]\<rparr>"

definition rwWrite :: "string \<Rightarrow> ResponseWriter \<Rightarrow> ResponseWriter" where
  "rwWrite b w = w\<lparr>calls := calls w @ [WriteCall b]\<rparr>"

text \<open>\<open>responseRecorder\<close> and its three methods.\<close>

record responseRecorder =
  rw :: ResponseWriter
  status :: int
  body :: string

definition recorder_Header :: "responseRecorder \<Rightarrow> Header" where
  "recorder_Header r = header (rw r)"

definition recorder_Write :: "string \<Rightarrow> responseRecorder \<Rightarrow> responseRecorder" where
  "recorder_Write b r = r\<lparr>body := body r @ b, rw := rwWrite b (rw r)\<rparr>"

definition recorder_WriteHeader :: "int \<Rightarrow> responseRecorder \<Rightarrow> responseRecorder" where
  "recorder_WriteHeader statusCode r =
     r\<lparr>status := statusCode, rw := rwWriteHeader statusCode (rw r)\<rparr>"

text \<open>
  What the next handler does with the writer it is given: it edits the map that
  \<open>Header()\<close> returns, calls \<open>WriteHeader\<close>, calls \<open>Write\<close>. Run against the recorder,
  each step goes through the recorder's methods.
\<close>

datatype handlerAct = EditHeader "Header \<Rightarrow> Header" | CallWriteHeader int | CallWrite string

fun recorderAct :: "handlerAct \<Rightarrow> responseRecorder \<Rightarrow> responseRecorder" where
  "recorderAct (EditHeader f) r = r\<lparr>rw := (rw r)\<lparr>header := f (recorder_Header r)\<rparr>\<rparr>"
| "recorderAct (CallWriteHeader statusCode) r = recorder_WriteHeader statusCode r"
| "recorderAct (CallWrite b) r = recorder_Write b r"

definition serveRecorded :: "handlerAct list \<Rightarrow> responseRecorder \<Rightarrow> responseRecorder" where
  "serveRecorded acts r = fold recorderAct acts r"

text \<open>
  The store client as the plugin holds it, the interface \<open>resp.IClient\<close>: each method
  takes the client's state and returns the Go results and the state afterwards.
\<close>

record 's IClient =
  Get :: "Context \<Rightarrow> string \<Rightarrow> 's \<Rightarrow> (string \<times> error option) \<times> 's"
  Delete :: "Context \<Rightarrow> string \<Rightarrow> 's \<Rightarrow> error option \<times> 's"
  SetWithTTL :: "Context \<Rightarrow> string \<Rightarrow> string \<Rightarrow> int \<Rightarrow> 's \<Rightarrow> error option \<times> 's"

record Request =
  urlPath :: string
  reqContext :: Context

record 's Cache =
  nextHandler :: "Request \<Rightarrow> handlerAct list"
  resp :: "'s IClient"
  cacheExpiry :: int

text \<open>
  The library functions \<open>ServeHTTP\<close> calls: the gob decoder for a \<open>CachedResponse\<close>
  (\<open>None\<close> when \<open>Decode\<close> returns an error), the bytes the gob encoder leaves in the
  buffer, and the canonical form of a header key.
\<close>

record Library =
  gobDecode :: "string \<Rightarrow> CachedResponse option"
  gobEncode :: "CachedResponse \<Rightarrow> string"
  canonicalKey :: "string \<Rightarrow> string"

text \<open>The hit branch: every cached header value added, then the status, then the body.\<close>

definition addHeaders :: "Library \<Rightarrow> Header \<Rightarrow> Header \<Rightarrow> Header" where
  "addHeaders lib cached h =
     fold (\<lambda>(key, values) h'. fold (\<lambda>value. appendValue (canonicalKey lib key) value) values h')
       cached h"

definition serveHit :: "Library \<Rightarrow> CachedResponse \<Rightarrow> ResponseWriter \<Rightarrow> ResponseWriter" where
  "serveHit lib cachedResponse w =
     rwWrite (Body cachedResponse)
       (rwWriteHeader (StatusCode cachedResponse)
          (w\<lparr>header := addHeaders lib (Headers cachedResponse) (header w)\<rparr>))"

text \<open>
  The miss branch: the next handler runs against the recorder, what was recorded is
  encoded and stored with the configured expiry (errors are only logged), and the
  recorded status and body are written to the original writer.
\<close>

definition serveMiss ::
  "Library \<Rightarrow> 's Cache \<Rightarrow> ResponseWriter \<Rightarrow> Request \<Rightarrow> 's \<Rightarrow> ResponseWriter \<times> 's" where
  "serveMiss lib c w req s =
     (let recorder = serveRecorded (nextHandler c req) \<lparr>rw = w, status = 0, body = []\<rparr>;
          cachedResponse = \<lparr>StatusCode = status recorder, Headers = recorder_Header recorder,
                            Body = body recorder\<rparr>;
          s' = snd (SetWithTTL (resp c) (reqContext req) (urlPath req)
                      (gobEncode lib cachedResponse) (cacheExpiry c) s)
      in (rwWrite (body recorder) (rwWriteHeader (status recorder) (rw recorder)), s'))"

definition ServeHTTP ::
  "Library \<Rightarrow> 's Cache \<Rightarrow> ResponseWriter \<Rightarrow> Request \<Rightarrow> 's \<Rightarrow> ResponseWriter \<times> 's" where
  "ServeHTTP lib c w req s =
     (case Get (resp c) (reqContext req) (urlPath req) s of
        ((cachedData, err), s1) \<Rightarrow>
          if err = None \<and> cachedData \<noteq> [] then
            (case gobDecode lib cachedData of
               Some cachedResponse \<Rightarrow> (serveHit lib cachedResponse w, s1)
             | None \<Rightarrow>
                 serveMiss lib c w req (snd (Delete (resp c) (reqContext req) (urlPath req) s1)))
          else serveMiss lib c w req s1)"

text \<open>The calls a handler's steps make on a writer, and what a list of calls amounts to.\<close>

fun callOf :: "handlerAct \<Rightarrow> writerCall option" where
  "callOf (EditHeader f) = None"
| "callOf (CallWriteHeader statusCode) = Some (WriteHeaderCall statusCode)"
| "callOf (CallWrite b) = Some (WriteCall b)"

definition callsOf :: "handlerAct list \<Rightarrow> writerCall list" where
  "callsOf acts = List.map_filter callOf acts"

fun lastStatus :: "int \<Rightarrow> writerCall list \<Rightarrow> int" where
  "lastStatus st [] = st"
| "lastStatus st (WriteHeaderCall statusCode # cs) = lastStatus statusCode cs"
| "lastStatus st (WriteCall b # cs) = lastStatus st cs"

fun bodyWritten :: "writerCall list \<Rightarrow> string" where
  "bodyWritten [] = []"
| "bodyWritten (WriteHeaderCall statusCode # cs) = bodyWritten cs"
| "bodyWritten (WriteCall b # cs) = b @ bodyWritten cs"

text \<open>A store client that answers every \<open>Get\<close> with the same blob and logs its calls.\<close>

datatype clientCall = GetCall string | DeleteCall string | SetWithTTLCall string string int

definition loggingClient :: "string \<Rightarrow> clientCall list IClient" where
  "loggingClient blob =
     \<lparr>Get = (\<lambda>ctx key s. ((blob, None), s @ [GetCall key])),
      Delete = (\<lambda>ctx key s. (None, s @ [DeleteCall key])),
      SetWithTTL = (\<lambda>ctx key v ttl s. (None, s @ [SetWithTTLCall key v ttl]))\<rparr>"

text \<open>A library whose decoder rejects every blob, a handler, a fresh writer, a request.\<close>

definition rejecting :: Library where
  "rejecting = \<lparr>gobDecode = (\<lambda>blob. None), gobEncode = (\<lambda>r. ''encoded''),
                 canonicalKey = (\<lambda>key. key)\<rparr>"

definition hello :: "Request \<Rightarrow> handlerAct list" where
  "hello req = [CallWriteHeader 200, CallWrite ''hi'']"

definition freshWriter :: ResponseWriter where
  "freshWriter = \<lparr>header = [], calls = []\<rparr>"

definition getA :: Request where
  "getA = \<lparr>urlPath = ''/a'', reqContext = Background\<rparr>"

section \<open>Facts about the buffered reader\<close>

lemma concat_dropWhile_empty: "concat (dropWhile (\<lambda>seg. seg = []) xs) = concat xs"
  by (induction xs) auto

lemma connRead_open:
  assumes "\<not> closed rc" "concat (incoming rc) \<noteq> []"
  shows "\<exists>data inc'. connRead k rc = (Some data, rc\<lparr>incoming := inc'\<rparr>)
            \<and> data @ concat inc' = concat (incoming rc)"
proof -
  from assms(2) have "concat (dropWhile (\<lambda>seg. seg = []) (incoming rc)) \<noteq> []"
    by (simp add: concat_dropWhile_empty)
  then obtain seg rest where dw: "dropWhile (\<lambda>seg. seg = []) (incoming rc) = seg # rest"
    by (cases "dropWhile (\<lambda>seg. seg = []) (incoming rc)") auto
  have cat: "seg @ concat rest = concat (incoming rc)"
    using concat_dropWhile_empty [of "incoming rc"] dw by simp
  define inc' where "inc' = (if length seg \<le> k then rest else drop k seg # rest)"
  have "take k seg @ concat inc' = concat (incoming rc)"
    using cat by (auto simp: inc'_def simp flip: append_assoc)
  moreover have "connRead k rc = (Some (take k seg), rc\<lparr>incoming := inc'\<rparr>)"
    using assms(1) dw by (simp add: connRead_def inc'_def)
  ultimately show ?thesis by blast
qed

lemma ReadStringLoop_stream:
  assumes "\<not> closed rc" "LF \<in> set (stream rc)"
  shows "\<exists>b' inc'. ReadStringLoop acc rc =
            (Return (acc @ takeWhile (\<lambda>c. c \<noteq> LF) (stream rc) @ [LF]),
             rc\<lparr>buffered := b', incoming := inc'\<rparr>)
          \<and> b' @ concat inc' = tl (dropWhile (\<lambda>c. c \<noteq> LF) (stream rc))"
  using assms
proof (induction acc rc rule: ReadStringLoop.induct)
  case (1 acc rc)
  show ?case
  proof (cases "LF \<in> set (buffered rc)")
    case True
    then have dw: "dropWhile (\<lambda>c. c \<noteq> LF) (buffered rc) \<noteq> []"
      by (simp add: dropWhile_eq_Nil_conv)
    have tw: "takeWhile (\<lambda>c. c \<noteq> LF) (stream rc) = takeWhile (\<lambda>c. c \<noteq> LF) (buffered rc)"
      unfolding stream_def using True by (intro takeWhile_append1[where x=LF]) auto
    have dwa: "dropWhile (\<lambda>c. c \<noteq> LF) (stream rc) = dropWhile (\<lambda>c. c \<noteq> LF) (buffered rc) @ concat (incoming rc)"
      unfolding stream_def using True by (intro dropWhile_append1[where x=LF]) auto
    show ?thesis
      apply (subst ReadStringLoop.simps)
      apply (simp add: True splitLine_def tw dwa dw)
      apply (rule exI[where x="tl (dropWhile (\<lambda>c. c \<noteq> LF) (buffered rc))"])
      apply (rule exI[where x="incoming rc"])
      apply simp
      done
  next
    case noLF: False
    show ?thesis
    proof (cases "defaultBufSize \<le> length (buffered rc)")
      case True
      let ?rc = "rc\<lparr>buffered := []\<rparr>"
      have s: "stream rc = buffered rc @ stream ?rc" by (simp add: stream_def)
      have "\<not> closed ?rc" "LF \<in> set (stream ?rc)" using 1 noLF by (auto simp: stream_def)
      from "1.IH"(1)[OF noLF True this] obtain b' inc' where
        ih: "ReadStringLoop (acc @ buffered rc) ?rc =
            (Return ((acc @ buffered rc) @ takeWhile (\<lambda>c. c \<noteq> LF) (stream ?rc) @ [LF]),
             ?rc\<lparr>buffered := b', incoming := inc'\<rparr>)"
        "b' @ concat inc' = tl (dropWhile (\<lambda>c. c \<noteq> LF) (stream ?rc))" by blast
      have tw: "takeWhile (\<lambda>c. c \<noteq> LF) (stream rc) = buffered rc @ takeWhile (\<lambda>c. c \<noteq> LF) (stream ?rc)"
        unfolding s using noLF by (intro takeWhile_append2) auto
      have dw: "dropWhile (\<lambda>c. c \<noteq> LF) (stream rc) = dropWhile (\<lambda>c. c \<noteq> LF) (stream ?rc)"
        unfolding s using noLF by (intro dropWhile_append2) auto
      show ?thesis
        apply (subst ReadStringLoop.simps)
        apply (simp add: noLF True ih tw dw)
        using ih(2) by blast
    next
      case False
      have ne: "concat (incoming rc) \<noteq> []" using 1(4) noLF by (fastforce simp: stream_def)
      from connRead_open[OF 1(3) ne, of "defaultBufSize - length (buffered rc)"]
      obtain data inc1 where
        cr: "connRead (defaultBufSize - length (buffered rc)) rc = (Some data, rc\<lparr>incoming := inc1\<rparr>)"
        and eq: "data @ concat inc1 = concat (incoming rc)" by blast
      let ?rc = "rc\<lparr>incoming := inc1, buffered := buffered rc @ data\<rparr>"
      have s: "stream ?rc = stream rc" using eq by (simp add: stream_def)
      have "\<not> closed ?rc" "LF \<in> set (stream ?rc)" using 1(3,4) s by auto
      from "1.IH"(2)[OF noLF False cr[symmetric] refl this] obtain b' inc' where
        ih: "ReadStringLoop acc ?rc =
            (Return (acc @ takeWhile (\<lambda>c. c \<noteq> LF) (stream ?rc) @ [LF]),
             ?rc\<lparr>buffered := b', incoming := inc'\<rparr>)"
        "b' @ concat inc' = tl (dropWhile (\<lambda>c. c \<noteq> LF) (stream ?rc))" by blast
      show ?thesis
        apply (subst ReadStringLoop.simps)
        apply (simp add: noLF False cr ih s)
        using ih(2) s by auto
    qed
  qed
qed


lemma takeWhile_line: "LF \<notin> set l \<Longrightarrow> takeWhile (\<lambda>c. c \<noteq> LF) (l @ LF # rest) = l"
  by (induction l) auto

lemma dropWhile_line: "LF \<notin> set l \<Longrightarrow> dropWhile (\<lambda>c. c \<noteq> LF) (l @ LF # rest) = LF # rest"
  by (induction l) auto

lemma TrimSuffix_CRLF: "TrimSuffix (x @ CRLF) CRLF = x"
  by (simp add: TrimSuffix_def)

lemma Receive_stream:
  assumes "ctx_Err ctx now = None" "\<not> closed rc" "stream rc = l @ LF # rest" "LF \<notin> set l"
  shows "\<exists>rc''. Receive now ctx rc = replySwitch (l @ [LF]) rc'' \<and> stream rc'' = rest
            \<and> \<not> closed rc''"
proof -
  let ?rc = "rc\<lparr>readDeadline := Some (ioDeadline ctx now)\<rparr>"
  have s: "stream ?rc = l @ LF # rest" using assms(3) by (simp add: stream_def)
  note tw = takeWhile_line [OF assms(4), of rest]
  note dw = dropWhile_line [OF assms(4), of rest]
  from ReadStringLoop_stream [of ?rc "[]"] assms(2) s
  obtain b' inc' where
    rs: "ReadStringLoop [] ?rc = (Return (l @ [LF]), ?rc\<lparr>buffered := b', incoming := inc'\<rparr>)"
    and st: "b' @ concat inc' = rest"
    by (auto simp: tw dw)
  let ?rc'' = "?rc\<lparr>buffered := b', incoming := inc'\<rparr>"
  have "Receive now ctx rc = replySwitch (l @ [LF]) ?rc''"
    using assms(1,2) rs by (simp add: Receive_def SetReadDeadline_def ReadString_def)
  moreover have "stream ?rc'' = rest"
    using st by (simp add: stream_def)
  moreover have "\<not> closed ?rc''" using assms(2) by simp
  ultimately show ?thesis by (intro exI [where x = ?rc'']) blast
qed

lemma Receive_buffered:
  assumes "ctx_Err ctx now = None" "\<not> closed rc" "buffered rc = l @ LF # rest" "LF \<notin> set l"
  shows "Receive now ctx rc =
           replySwitch (l @ [LF]) (rc\<lparr>readDeadline := Some (ioDeadline ctx now), buffered := rest\<rparr>)"
proof -
  note tw = takeWhile_line [OF assms(4), of rest]
  note dw = dropWhile_line [OF assms(4), of rest]
  show ?thesis
    using assms(1,2,3)
    by (simp add: Receive_def SetReadDeadline_def ReadString_def ReadStringLoop.simps
        splitLine_def tw dw)
qed

lemmas eval_defs = Receive_def ctx_Err_def SetReadDeadline_def ioDeadline_def ReadString_def
  ReadStringLoop.simps connRead_def defaultBufSize_def splitLine_def TrimSuffix_def Atoi_def
  isDigit_def digitsVal_def digitVal_def receiveBulk_def replySwitch_def wrap64_def maxAlloc_def
  Read_def Background_def dialed_def stream_def

lemma digitsVal_nonneg: "list_all isDigit b \<Longrightarrow> 0 \<le> a \<Longrightarrow> 0 \<le> foldl (\<lambda>n c. n * 10 + digitVal c) a b"
  by (induction b arbitrary: a) (auto simp: isDigit_def digitVal_def)

lemma Atoi_lower: "- (2 ^ 63) \<le> fst (Atoi s)"
proof -
  have "list_all isDigit b \<Longrightarrow> 0 \<le> digitsVal b" for b
    unfolding digitsVal_def by (rule digitsVal_nonneg) simp_all
  then show ?thesis
    by (auto simp: Atoi_def Let_def) (smt (verit))+
qed

lemma Atoi_syntax: "snd (Atoi s) = Some ErrSyntax \<Longrightarrow> fst (Atoi s) = 0"
  by (auto simp: Atoi_def Let_def split: if_splits)

lemma replySwitch_bulk:
  "replySwitch ((CHR ''$'' # s @ [CR]) @ [LF]) rc = receiveBulk (fst (Atoi s)) rc"
  using TrimSuffix_CRLF [of s] by (simp add: replySwitch_def)

section \<open>Facts about the client and the pool\<close>








lemma populate_length:
  "fold (populateStep now net addr au) xs (Return acc) = Return conns
     \<Longrightarrow> length conns \<le> length acc + length xs"
proof (induction xs arbitrary: acc)
  case Nil
  then show ?case by simp
next
  case (Cons i xs)
  have P: "fold (populateStep now net addr au) xs (Panic p) = Panic p" for p
    by (induction xs) (simp_all add: populateStep_def)
  show ?case
  proof (cases "NewRedisConnection now (net addr i) au")
    case (Return conn)
    then have "populateStep now net addr au i (Return acc) = Return (acc @ [conn])"
      by (simp add: populateStep_def)
    then show ?thesis using Cons.IH [of "acc @ [conn]"] Cons.prems by simp
  next
    case (Fail err)
    then have "populateStep now net addr au i (Return acc) = Return acc"
      by (simp add: populateStep_def)
    then show ?thesis using Cons.IH [of acc] Cons.prems by simp
  next
    case (Panic p)
    then have "populateStep now net addr au i (Return acc) = Panic p"
      by (simp add: populateStep_def)
    then show ?thesis using Cons.prems P by simp
  qed
qed

lemma NewRedisClient_bound:
  assumes "NewRedisClient now net addr capacity au = Return c"
  shows "int (length (pool c)) \<le> poolSize c \<and> poolSize c = capacity"
proof -
  from assms obtain conns where
    f: "fold (populateStep now net addr au) [0..<nat capacity] (Return []) = Return conns"
    and c: "c = \<lparr>pool = conns, address = addr, poolSize = capacity, auth = au,
                 dialer = net, dials = nat capacity\<rparr>" and nn: "0 \<le> capacity"
    by (auto simp: NewRedisClient_def split: if_splits outcome.splits)
  from populate_length [OF f] nn show ?thesis by (simp add: c)
qed

lemma GetConnection_bound:
  "int (length (pool c)) \<le> poolSize c \<Longrightarrow>
     int (length (pool (snd (GetConnection now c)))) \<le> poolSize (snd (GetConnection now c))
     \<and> poolSize (snd (GetConnection now c)) = poolSize c"
  by (auto simp: GetConnection_def split: list.splits)

lemma ReleaseConnection_bound:
  "int (length (pool c)) \<le> poolSize c \<Longrightarrow>
     int (length (pool (fst (ReleaseConnection conn c)))) \<le> poolSize (fst (ReleaseConnection conn c))
     \<and> poolSize (fst (ReleaseConnection conn c)) = poolSize c"
  by (auto simp: ReleaseConnection_def)

lemma runPool_bound:
  "int (length (pool c)) \<le> poolSize c \<Longrightarrow>
     int (length (pool (runPool c ops))) \<le> poolSize (runPool c ops)
     \<and> poolSize (runPool c ops) = poolSize c"
proof (induction c ops rule: runPool.induct)
  case (1 client)
  then show ?case by simp
next
  case (2 client now ops)
  then show ?case using GetConnection_bound [of client now] by simp
next
  case (3 client conn ops)
  then show ?case using ReleaseConnection_bound [of client conn] by simp
qed

lemma populate_panic: "fold (populateStep now net addr au) xs (Panic p) = Panic p"
  by (induction xs) (simp_all add: populateStep_def)

lemma populate_no_panic:
  assumes "\<forall>i\<in>set xs. \<forall>p. NewRedisConnection now (net addr i) au \<noteq> Panic p"
  shows "fold (populateStep now net addr au) xs (Return acc)
       = Return (acc @ List.map_filter (\<lambda>i. connectionOf (NewRedisConnection now (net addr i) au)) xs)"
  using assms
proof (induction xs arbitrary: acc)
  case Nil
  then show ?case by (simp add: List.map_filter_def)
next
  case (Cons i xs)
  show ?case
  proof (cases "NewRedisConnection now (net addr i) au")
    case (Return conn)
    then have "populateStep now net addr au i (Return acc) = Return (acc @ [conn])"
      by (simp add: populateStep_def)
    then show ?thesis using Cons.IH [of "acc @ [conn]"] Cons.prems Return
      by (simp add: List.map_filter_def connectionOf_def)
  next
    case (Fail err)
    then have "populateStep now net addr au i (Return acc) = Return acc"
      by (simp add: populateStep_def)
    then show ?thesis using Cons.IH [of acc] Cons.prems Fail
      by (simp add: List.map_filter_def connectionOf_def)
  next
    case (Panic p)
    then show ?thesis using Cons.prems by simp
  qed
qed

lemma established_empty_iff:
  assumes "\<forall>i<n. \<forall>p. NewRedisConnection now (net addr i) au \<noteq> Panic p"
  shows "established now net addr au n = []
     \<longleftrightarrow> (\<forall>i<n. \<exists>err. NewRedisConnection now (net addr i) au = Fail err)"
proof -
  have "established now net addr au n = []
      \<longleftrightarrow> (\<forall>i<n. connectionOf (NewRedisConnection now (net addr i) au) = None)"
    by (auto simp: established_def List.map_filter_def filter_empty_conv)
  also have "\<dots> \<longleftrightarrow> (\<forall>i<n. \<exists>err. NewRedisConnection now (net addr i) au = Fail err)"
  proof -
    have "connectionOf r = None \<longleftrightarrow> (\<exists>err. r = Fail err)" if "\<forall>p. r \<noteq> Panic p" for r
      using that by (cases r) (simp_all add: connectionOf_def)
    then show ?thesis using assms by auto
  qed
  finally show ?thesis .
qed

lemma established_length: "length (established now net addr au n) \<le> n"
  using length_filter_le [of _ "[0..<n]"]
  by (simp add: established_def List.map_filter_def)

section \<open>Facts about the cache layer\<close>

lemma serveRecorded_calls:
  "calls (rw (fold recorderAct acts r)) = calls (rw r) @ List.map_filter callOf acts
   \<and> status (fold recorderAct acts r) = lastStatus (status r) (List.map_filter callOf acts)
   \<and> body (fold recorderAct acts r) = body r @ bodyWritten (List.map_filter callOf acts)"
proof (induction acts arbitrary: r)
  case Nil
  then show ?case by (simp add: List.map_filter_simps)
next
  case (Cons a acts)
  show ?case
    using Cons.IH [of "recorderAct a r"]
    by (cases a)
      (simp_all add: List.map_filter_simps recorder_Write_def recorder_WriteHeader_def
        rwWrite_def rwWriteHeader_def)
qed

section \<open>Claims about the wire codec and the connection\<close>

text \<open>
  C2. The claim: for every bulk reply with declared length \<open>n \<ge> 0\<close>, \<open>Receive\<close> consumes
  exactly the \<open>n\<close> payload bytes and the trailing CRLF and returns the payload, also when
  the payload arrives over several short reads. The code makes a single \<open>rw.Read\<close>: when
  the header line and the first payload byte arrive in one segment and the rest in a second
  one, \<open>Receive\<close> returns the one byte read padded with zero bytes, leaves the rest of the
  payload unread, and the next \<open>Receive\<close> returns that rest as if it were a reply.
\<close>

theorem receive_short_read:
  "fst (Receive 0 Background (dialed [''$3'' @ CRLF @ ''a'', ''bc'' @ CRLF])) = Return [CHR ''a'', NUL, NUL]
   \<and> stream (snd (Receive 0 Background (dialed [''$3'' @ CRLF @ ''a'', ''bc'' @ CRLF]))) = ''bc'' @ CRLF
   \<and> fst (Receive 0 Background (snd (Receive 0 Background (dialed [''$3'' @ CRLF @ ''a'', ''bc'' @ CRLF]))))
       = Return ''bc''"
  by (simp add: eval_defs numeral_2_eq_2)




text \<open>
  C6. When the context is cancelled or its deadline has elapsed at entry, \<open>Send\<close> and
  \<open>Receive\<close> return the context's error and leave the connection as it was: nothing is
  written, nothing is read, no deadline is set on the socket.
\<close>

theorem expired_context_no_io:
  assumes "cancelled ctx \<or> (\<exists>d. deadline ctx = Some d \<and> d \<le> now)"
  shows "\<exists>err. (err = Canceled \<or> err = DeadlineExceeded)
           \<and> Send now ctx command rc = (Some err, rc)
           \<and> Receive now ctx rc = (Fail err, rc)"
  using assms by (auto simp: Send_def Receive_def ctx_Err_def)

theorem expired_context_no_io_witness:
  "Send 10 \<lparr>cancelled = False, deadline = Some 7\<rparr> ''PING'' (dialed [''+PONG'' @ CRLF])
     = (Some DeadlineExceeded, dialed [''+PONG'' @ CRLF])
   \<and> Receive 10 \<lparr>cancelled = False, deadline = Some 7\<rparr> (dialed [''+PONG'' @ CRLF])
     = (Fail DeadlineExceeded, dialed [''+PONG'' @ CRLF])"
  using expired_context_no_io [of "\<lparr>cancelled = False, deadline = Some 7\<rparr>" 10 "''PING''"
      "dialed [''+PONG'' @ CRLF]"]
  by (simp add: Send_def Receive_def ctx_Err_def)

text \<open>
  C9, as the code has it. For a bulk header whose text \<open>s\<close> \<open>Atoi\<close> reads as a length
  below \<open>-1\<close>, \<open>Receive\<close> panics: for a length of \<open>-3\<close> or less in \<open>make\<close>, whose
  size \<open>length + 2\<close> is negative; for the length \<open>-2\<close> the size is 0, \<open>make\<close> succeeds,
  and the panic comes from the slice expression \<open>buf[:length]\<close>. The length \<open>-1\<close> is the
  only negative one handled (the empty string, no error). A header whose text is not a
  number is handled exactly as the header \<open>$0\<close>, the parse error being dropped.
\<close>

theorem receive_bulk_negative_length:
  assumes "ctx_Err ctx now = None" "\<not> closed rc" "LF \<notin> set s"
    and "stream rc = CHR ''$'' # s @ CRLF @ rest"
  shows "(fst (Atoi s) \<le> - 3 \<longrightarrow> fst (Receive now ctx rc) = Panic MakesliceLenOutOfRange)
    \<and> (fst (Atoi s) = - 2 \<longrightarrow> fst (Receive now ctx rc) = Panic SliceBoundsOutOfRange)
    \<and> (fst (Atoi s) = - 1 \<longrightarrow> fst (Receive now ctx rc) = Return [])
    \<and> (snd (Atoi s) = Some ErrSyntax \<longrightarrow>
         Receive now ctx (rc\<lparr>buffered := CHR ''$'' # s @ CRLF @ rest\<rparr>)
           = Receive now ctx (rc\<lparr>buffered := ''$0'' @ CRLF @ rest\<rparr>))"
proof -
  have "stream rc = (CHR ''$'' # s @ [CR]) @ LF # rest" using assms(4) by simp
  moreover have nl: "LF \<notin> set (CHR ''$'' # s @ [CR])" using assms(3) by simp
  ultimately obtain rc'' where
    rcv: "Receive now ctx rc = receiveBulk (fst (Atoi s)) rc''"
    using Receive_stream [OF assms(1,2)] replySwitch_bulk by metis
  have low: "- (2 ^ 63) \<le> fst (Atoi s)" by (rule Atoi_lower)
  have a: "fst (Receive now ctx rc) = Panic MakesliceLenOutOfRange" if "fst (Atoi s) \<le> - 3"
    using that low by (simp add: rcv receiveBulk_def wrap64_def)
  have b: "fst (Receive now ctx rc) = Panic SliceBoundsOutOfRange" if "fst (Atoi s) = - 2"
    using that by (simp add: rcv receiveBulk_def wrap64_def maxAlloc_def Read_def)
  have c: "fst (Receive now ctx rc) = Return []" if "fst (Atoi s) = - 1"
    using that by (simp add: rcv receiveBulk_def)
  have d: "Receive now ctx (rc\<lparr>buffered := CHR ''$'' # s @ CRLF @ rest\<rparr>)
           = Receive now ctx (rc\<lparr>buffered := ''$0'' @ CRLF @ rest\<rparr>)"
    if syn: "snd (Atoi s) = Some ErrSyntax"
  proof -
    have "Receive now ctx (rc\<lparr>buffered := CHR ''$'' # s @ CRLF @ rest\<rparr>)
        = replySwitch ((CHR ''$'' # s @ [CR]) @ [LF])
            (rc\<lparr>buffered := CHR ''$'' # s @ CRLF @ rest,
                readDeadline := Some (ioDeadline ctx now), buffered := rest\<rparr>)"
      using Receive_buffered [OF assms(1), of "rc\<lparr>buffered := CHR ''$'' # s @ CRLF @ rest\<rparr>"
          "CHR ''$'' # s @ [CR]" rest] assms(2) nl by simp
    moreover have "Receive now ctx (rc\<lparr>buffered := ''$0'' @ CRLF @ rest\<rparr>)
        = replySwitch ((CHR ''$'' # ''0'' @ [CR]) @ [LF])
            (rc\<lparr>buffered := ''$0'' @ CRLF @ rest,
                readDeadline := Some (ioDeadline ctx now), buffered := rest\<rparr>)"
      using Receive_buffered [OF assms(1), of "rc\<lparr>buffered := ''$0'' @ CRLF @ rest\<rparr>"
          "CHR ''$'' # ''0'' @ [CR]" rest] assms(2) by simp
    moreover have "fst (Atoi ''0'') = 0"
      by (simp add: Atoi_def isDigit_def digitsVal_def digitVal_def)
    ultimately show ?thesis
      using Atoi_syntax [OF syn] by (simp only: replySwitch_bulk) simp
  qed
  from a b c d show ?thesis by blast
qed

theorem receive_bulk_negative_length_witness:
  "fst (Receive 0 Background (dialed [''$-3'' @ CRLF])) = Panic MakesliceLenOutOfRange
   \<and> fst (Receive 0 Background (dialed [''$-2'' @ CRLF])) = Panic SliceBoundsOutOfRange
   \<and> fst (Receive 0 Background (dialed [''$-1'' @ CRLF])) = Return []
   \<and> Receive 0 Background ((dialed [])\<lparr>buffered := ''$abc'' @ CRLF @ CRLF\<rparr>)
       = Receive 0 Background ((dialed [])\<lparr>buffered := ''$0'' @ CRLF @ CRLF\<rparr>)"
proof -
  have live: "ctx_Err Background 0 = None" by (simp add: ctx_Err_def Background_def)
  have atoi: "fst (Atoi ''-3'') \<le> - 3" "fst (Atoi ''-2'') = - 2" "fst (Atoi ''-1'') = - 1"
    "snd (Atoi ''abc'') = Some ErrSyntax"
    by (simp_all add: Atoi_def isDigit_def digitsVal_def digitVal_def)
  have "fst (Receive 0 Background (dialed [''$-3'' @ CRLF])) = Panic MakesliceLenOutOfRange"
    using receive_bulk_negative_length [OF live, of "dialed [''$-3'' @ CRLF]" "''-3''" "[]"] atoi(1)
    by (simp add: dialed_def stream_def)
  moreover have "fst (Receive 0 Background (dialed [''$-2'' @ CRLF])) = Panic SliceBoundsOutOfRange"
    using receive_bulk_negative_length [OF live, of "dialed [''$-2'' @ CRLF]" "''-2''" "[]"] atoi(2)
    by (simp add: dialed_def stream_def)
  moreover have "fst (Receive 0 Background (dialed [''$-1'' @ CRLF])) = Return []"
    using receive_bulk_negative_length [OF live, of "dialed [''$-1'' @ CRLF]" "''-1''" "[]"] atoi(3)
    by (simp add: dialed_def stream_def)
  moreover have "Receive 0 Background ((dialed [])\<lparr>buffered := ''$abc'' @ CRLF @ CRLF\<rparr>)
       = Receive 0 Background ((dialed [])\<lparr>buffered := ''$0'' @ CRLF @ CRLF\<rparr>)"
    using receive_bulk_negative_length [OF live,
        of "(dialed [])\<lparr>buffered := ''$abc'' @ CRLF @ CRLF\<rparr>" "''abc''" "CRLF"]
      atoi(4)
    by (simp add: dialed_def stream_def)
  ultimately show ?thesis by blast
qed

text \<open>
  C9, against the claim as stated: on the line \<open>$-2\<close> no buffer of negative size is
  requested (\<open>length + 2 = 0\<close>); the panic is the one of the slice bounds.
\<close>

theorem receive_minus_two_allocates_zero:
  "fst (Receive 0 Background (dialed [''$-2'' @ CRLF])) = Panic SliceBoundsOutOfRange
   \<and> wrap64 (fst (Atoi ''-2'') + 2) = 0"
  by (simp add: eval_defs)




section \<open>Claims about the client and the pool\<close>




text \<open>
  C4. From any client that \<open>NewRedisClient\<close> returns, after any sequence of acquire and
  release operations, the pool holds at most \<open>poolSize\<close> idle connections; a release on
  a full pool leaves the client as it is and closes the connection; a release on a pool
  with room appends the connection, unchanged, to the idle queue.
\<close>

theorem pool_never_exceeds_capacity:
  assumes "NewRedisClient now net addr capacity au = Return c0"
  shows "int (length (pool (runPool c0 ops))) \<le> capacity
       \<and> (capacity \<le> int (length (pool (runPool c0 ops))) \<longrightarrow>
            fst (ReleaseConnection conn (runPool c0 ops)) = runPool c0 ops
            \<and> closed (snd (ReleaseConnection conn (runPool c0 ops))))
       \<and> (int (length (pool (runPool c0 ops))) < capacity \<longrightarrow>
            pool (fst (ReleaseConnection conn (runPool c0 ops))) = pool (runPool c0 ops) @ [conn]
            \<and> snd (ReleaseConnection conn (runPool c0 ops)) = conn)"
proof -
  from NewRedisClient_bound [OF assms]
  have "int (length (pool c0)) \<le> poolSize c0" "poolSize c0 = capacity" by simp_all
  with runPool_bound [of c0 ops]
  have "int (length (pool (runPool c0 ops))) \<le> capacity" "poolSize (runPool c0 ops) = capacity"
    by simp_all
  then show ?thesis by (auto simp: ReleaseConnection_def Close_def)
qed

theorem pool_never_exceeds_capacity_witness:
  "\<exists>c0. NewRedisClient 0 alwaysUp ''redis:6379'' 1 [] = Return c0
     \<and> int (length (pool (runPool c0 [Acquire 0, Acquire 0, Release (dialed []), Release (dialed [])]))) \<le> 1
     \<and> closed (snd (ReleaseConnection (dialed [])
          (runPool c0 [Acquire 0, Acquire 0, Release (dialed []), Release (dialed [])])))
     \<and> pool (fst (ReleaseConnection (dialed []) (runPool c0 [Acquire 0]))) = [dialed []]"
proof -
  let ?c0 = "\<lparr>pool = [dialed []], address = ''redis:6379'', poolSize = 1, auth = [],
              dialer = alwaysUp, dials = nat 1\<rparr>"
  have init: "NewRedisClient 0 alwaysUp ''redis:6379'' 1 [] = Return ?c0"
    by (simp add: NewRedisClient_def populateStep_def NewRedisConnection_def alwaysUp_def)
  have full: "(1::int) \<le> int (length (pool (runPool ?c0
      [Acquire 0, Acquire 0, Release (dialed []), Release (dialed [])])))"
    by (simp add: GetConnection_def ReleaseConnection_def NewRedisConnection_def alwaysUp_def)
  have room: "int (length (pool (runPool ?c0 [Acquire 0]))) < 1"
    by (simp add: GetConnection_def)
  have e: "pool (runPool ?c0 [Acquire 0]) = []"
    by (simp add: GetConnection_def)
  from pool_never_exceeds_capacity [OF init,
      of "[Acquire 0, Acquire 0, Release (dialed []), Release (dialed [])]" "dialed []"] full
    pool_never_exceeds_capacity [OF init, of "[Acquire 0]" "dialed []"] room e init
  show ?thesis by (intro exI [where x = ?c0]) simp
qed

text \<open>
  C7. For a non-negative pool size, and connection attempts that return (none panics),
  \<open>NewRedisClient\<close> makes \<open>poolSize\<close> attempts; it returns an error exactly when
  every attempt fails; when at least one succeeds it returns, without an error, the client
  whose pool is the connections established, in order, at least one and at most
  \<open>poolSize\<close>, having dialed \<open>poolSize\<close> times.
\<close>

theorem constructor_fails_iff_all_dials_fail:
  assumes "0 \<le> capacity"
    and "\<forall>i < nat capacity. \<forall>p. NewRedisConnection now (net addr i) au \<noteq> Panic p"
  shows "((\<exists>err. NewRedisClient now net addr capacity au = Fail err)
            \<longleftrightarrow> (\<forall>i < nat capacity. \<exists>err. NewRedisConnection now (net addr i) au = Fail err))
       \<and> ((\<exists>i < nat capacity. \<exists>conn. NewRedisConnection now (net addr i) au = Return conn)
            \<longrightarrow> NewRedisClient now net addr capacity au
                  = Return \<lparr>pool = established now net addr au (nat capacity), address = addr,
                            poolSize = capacity, auth = au, dialer = net, dials = nat capacity\<rparr>
                \<and> 0 < length (established now net addr au (nat capacity))
                \<and> length (established now net addr au (nat capacity)) \<le> nat capacity)"
proof -
  have f: "fold (populateStep now net addr au) [0..<nat capacity] (Return [])
         = Return (established now net addr au (nat capacity))"
    using populate_no_panic [of "[0..<nat capacity]" now net addr au "[]"] assms(2)
    by (simp add: established_def)
  note e = established_empty_iff [of "nat capacity" now net addr au, OF assms(2)]
  have new: "NewRedisClient now net addr capacity au
      = (if established now net addr au (nat capacity) = []
         then Fail (ErrorsNew ''can't create redis connection'')
         else Return \<lparr>pool = established now net addr au (nat capacity), address = addr,
                      poolSize = capacity, auth = au, dialer = net, dials = nat capacity\<rparr>)"
    using assms(1) by (simp add: NewRedisClient_def f)
  have 1: "(\<exists>err. NewRedisClient now net addr capacity au = Fail err)
            \<longleftrightarrow> (\<forall>i < nat capacity. \<exists>err. NewRedisConnection now (net addr i) au = Fail err)"
    using e by (simp add: new)
  have 2: "NewRedisClient now net addr capacity au
                  = Return \<lparr>pool = established now net addr au (nat capacity), address = addr,
                            poolSize = capacity, auth = au, dialer = net, dials = nat capacity\<rparr>
                \<and> 0 < length (established now net addr au (nat capacity))
                \<and> length (established now net addr au (nat capacity)) \<le> nat capacity"
    if "\<exists>i < nat capacity. \<exists>conn. NewRedisConnection now (net addr i) au = Return conn"
  proof -
    from that e have "established now net addr au (nat capacity) \<noteq> []" by auto
    then show ?thesis using established_length [of now net addr au "nat capacity"]
      by (simp add: new)
  qed
  from 1 2 show ?thesis by blast
qed

theorem constructor_fails_iff_all_dials_fail_witness:
  "(\<exists>err. NewRedisClient 0 alwaysDown ''redis:6379'' 3 [] = Fail err)
   \<and> NewRedisClient 0 secondOnly ''redis:6379'' 3 []
       = Return \<lparr>pool = [dialed []], address = ''redis:6379'', poolSize = 3, auth = [],
                 dialer = secondOnly, dials = 3\<rparr>"
proof -
  have np: "\<forall>i < nat 3. \<forall>p. NewRedisConnection 0 (net ''redis:6379'' i) [] \<noteq> Panic p" for net
    by (auto simp: NewRedisConnection_def split: sum.splits)
  have down: "\<forall>i < nat 3. \<exists>err. NewRedisConnection 0 (alwaysDown ''redis:6379'' i) [] = Fail err"
    by (simp add: NewRedisConnection_def alwaysDown_def)
  have up: "\<exists>i < nat 3. \<exists>conn. NewRedisConnection 0 (secondOnly ''redis:6379'' i) [] = Return conn"
    by (intro exI [where x = 1]) (simp add: NewRedisConnection_def secondOnly_def)
  have est: "established 0 secondOnly ''redis:6379'' [] (nat 3) = [dialed []]"
    by (simp add: established_def List.map_filter_def connectionOf_def NewRedisConnection_def
        secondOnly_def upt_rec)
  from constructor_fails_iff_all_dials_fail [of 3 0 alwaysDown "''redis:6379''" "[]"] np down
    constructor_fails_iff_all_dials_fail [of 3 0 secondOnly "''redis:6379''" "[]"] np up est
  show ?thesis by simp
qed

section \<open>Claims about the cache layer\<close>



text \<open>
  C10. On a request that is not served from the cache (\<open>Get\<close> fails, returns nothing,
  or returns a blob that does not decode), the original writer receives every
  \<open>WriteHeader\<close> and \<open>Write\<close> of the next handler as it happens, through the recorder,
  and then once more the recorded status and the whole recorded body: the response is
  written twice.
\<close>

theorem miss_writes_response_twice:
  assumes "Get (resp c) (reqContext req) (urlPath req) s = ((cachedData, err), s1)"
    and "err \<noteq> None \<or> cachedData = [] \<or> gobDecode lib cachedData = None"
  shows "calls (fst (ServeHTTP lib c w req s))
           = calls w @ callsOf (nextHandler c req)
               @ [WriteHeaderCall (lastStatus 0 (callsOf (nextHandler c req))),
                  WriteCall (bodyWritten (callsOf (nextHandler c req)))]"
proof -
  have miss: "calls (fst (serveMiss lib c w req t))
           = calls w @ callsOf (nextHandler c req)
               @ [WriteHeaderCall (lastStatus 0 (callsOf (nextHandler c req))),
                  WriteCall (bodyWritten (callsOf (nextHandler c req)))]" for t
    using serveRecorded_calls [of "nextHandler c req" "\<lparr>rw = w, status = 0, body = []\<rparr>"]
    by (simp add: serveMiss_def Let_def serveRecorded_def callsOf_def rwWrite_def rwWriteHeader_def)
  show ?thesis
    using assms(2) by (auto simp: ServeHTTP_def assms(1) miss split: option.splits)
qed

theorem miss_writes_response_twice_witness:
  "calls (fst (ServeHTTP rejecting
                 \<lparr>nextHandler = hello, resp = loggingClient [], cacheExpiry = 15\<rparr>
                 freshWriter getA []))
     = [WriteHeaderCall 200, WriteCall ''hi'', WriteHeaderCall 200, WriteCall ''hi'']"
proof -
  let ?c = "\<lparr>nextHandler = hello, resp = loggingClient [], cacheExpiry = 15\<rparr>"
  have g: "Get (resp ?c) (reqContext getA) (urlPath getA) []
             = (([], None), [GetCall ''/a''])"
    by (simp add: loggingClient_def getA_def)
  have m: "None \<noteq> (None :: error option) \<or> ([] :: string) = [] \<or> gobDecode rejecting [] = None"
    by simp
  show ?thesis
    using miss_writes_response_twice [OF g m, of freshWriter]
    by (simp add: hello_def callsOf_def List.map_filter_simps freshWriter_def)
qed

end
